theory Spec2Isabelle
  imports Main "HOL-Library.Word" "HOL-Library.AList"
begin

section \<open>Machine integers\<close>

text \<open>
  Go's \<open>time.Duration\<close> is an \<open>int64\<close> and \<open>int\<close> is 64 bits wide on the platforms the
  package is built for. Both are modelled as \<open>int\<close>, with the two's complement
  wrap-around of every arithmetic result written out by \<open>int64\<close>.
\<close>

definition int64 :: "int \<Rightarrow> int" where
  "int64 k = signed_take_bit 63 k"

definition Millisecond :: int where
  "Millisecond = 1000000"

definition Second :: int where
  "Second = 1000 * Millisecond"

section \<open>The retrying transport\<close>

text \<open>An \<open>http.Response\<close>, as far as the package reads it: the status code and the body.\<close>

record response =
  StatusCode :: int
  RespBody :: string

text \<open>
  What one call of the wrapped \<open>http.Client.Do\<close> gives back: a non-nil error (with or
  without a response beside it), or a response and a nil error.
\<close>

datatype round_trip = Failed string "response option" | Responded response

record httpClient =
  MaxBackOff :: int
  MinBackOff :: int
  Retries :: int

definition isStatusOK :: "int \<Rightarrow> bool" where
  "isStatusOK statusCode \<longleftrightarrow> statusCode \<ge> 200 \<and> statusCode < 300"

text \<open>
  The loop of \<open>getExponentialBackOffDuration\<close>: \<open>for i := 0; i < attempt; i++\<close>, doubling
  \<open>exp\<close> and leaving the loop with \<open>MaxBackOff\<close> as soon as the doubled value exceeds it.
\<close>

function backoff_loop :: "httpClient \<Rightarrow> int \<Rightarrow> int \<Rightarrow> int \<Rightarrow> int" where
  "backoff_loop c attempt i exp =
     (if i < attempt then
        (let exp' = int64 (exp * 2) in
         if exp' > MaxBackOff c then MaxBackOff c
         else backoff_loop c attempt (i + 1) exp')
      else exp)"
  by pat_completeness auto
termination
  by (relation "measure (\<lambda>(c, attempt, i, exp). nat (attempt - i))") auto

declare backoff_loop.simps [simp del]

definition getExponentialBackOffDuration :: "httpClient \<Rightarrow> int \<Rightarrow> int" where
  "getExponentialBackOffDuration c attempt = backoff_loop c attempt 0 (MinBackOff c)"

text \<open>
  The state of one call of \<open>Do\<close>: the two result variables \<open>resp\<close> and \<open>err\<close>, how many
  times the wrapped client has been invoked, and the durations handed to \<open>time.Sleep\<close>.
\<close>

record do_state =
  resp :: "response option"
  err :: "string option"
  calls :: nat
  slept :: "int list"

definition NoAttempt :: do_state where
  "NoAttempt = \<lparr>resp = None, err = None, calls = 0, slept = []\<rparr>"

text \<open>
  The pair \<open>(resp, err)\<close> that a call of the wrapped client returns, and the assignment
  \<open>resp, err = c.client.Do(req)\<close>.
\<close>

fun returned :: "round_trip \<Rightarrow> response option \<times> string option" where
  "returned (Failed e r) = (r, Some e)"
| "returned (Responded r) = (Some r, None)"

definition record_attempt :: "round_trip \<Rightarrow> do_state \<Rightarrow> do_state" where
  "record_attempt r st =
     st\<lparr>resp := fst (returned r), err := snd (returned r), calls := Suc (calls st)\<rparr>"

text \<open>The retry test \<open>err != nil || !c.isStatusOK(resp.StatusCode)\<close>.\<close>

fun must_retry :: "round_trip \<Rightarrow> bool" where
  "must_retry (Failed e r) = True"
| "must_retry (Responded r) = (\<not> isStatusOK (StatusCode r))"

text \<open>
  The loop of \<open>Do\<close>: \<open>for i := 1; i <= c.Retries+1; i++\<close>. The wrapped client is a black
  box whose \<open>k\<close>-th invocation (counted from 0) returns \<open>send k\<close>. The counter is a machine
  integer, so the loop need not end; not returning is the value \<open>None\<close>.
\<close>

partial_function (option) Do_loop ::
    "httpClient \<Rightarrow> (nat \<Rightarrow> round_trip) \<Rightarrow> int \<Rightarrow> do_state \<Rightarrow> do_state option" where
  "Do_loop c send i st =
     (if i \<le> int64 (Retries c + 1) then
        (let r = send (calls st); st' = record_attempt r st in
         if must_retry r then
           Do_loop c send (int64 (i + 1))
             (st'\<lparr>slept := slept st' @ [getExponentialBackOffDuration c i]\<rparr>)
         else Some st')
      else Some st)"

definition Do :: "httpClient \<Rightarrow> (nat \<Rightarrow> round_trip) \<Rightarrow> do_state option" where
  "Do c send = Do_loop c send 1 NoAttempt"

section \<open>Strings and HTTP headers\<close>

text \<open>
  A Go string is a sequence of bytes, here a \<open>string\<close>. \<open>strings.ToLower\<close> is modelled on
  bytes: an ASCII capital becomes its small letter, every other byte stays. (On text
  beyond ASCII Go maps code points; no letter of the prefix tested by \<open>Publish\<close> is the
  image of one, so the test is the same.)
\<close>

definition is_upper :: "char \<Rightarrow> bool" where
  "is_upper ch \<longleftrightarrow> 65 \<le> (of_char ch :: nat) \<and> (of_char ch :: nat) \<le> 90"

definition is_lower :: "char \<Rightarrow> bool" where
  "is_lower ch \<longleftrightarrow> 97 \<le> (of_char ch :: nat) \<and> (of_char ch :: nat) \<le> 122"

definition is_digit :: "char \<Rightarrow> bool" where
  "is_digit ch \<longleftrightarrow> 48 \<le> (of_char ch :: nat) \<and> (of_char ch :: nat) \<le> 57"

definition lower_char :: "char \<Rightarrow> char" where
  "lower_char ch = (if is_upper ch then char_of (of_char ch + (32 :: nat)) else ch)"

definition upper_char :: "char \<Rightarrow> char" where
  "upper_char ch = (if is_lower ch then char_of (of_char ch - (32 :: nat)) else ch)"

definition ToLower :: "string \<Rightarrow> string" where
  "ToLower s = map lower_char s"

definition HasPrefix :: "string \<Rightarrow> string \<Rightarrow> bool" where
  "HasPrefix s p \<longleftrightarrow> take (length p) s = p"

text \<open>
  \<open>textproto.CanonicalMIMEHeaderKey\<close>, which \<open>Header.Set\<close> and \<open>Header.Get\<close> apply to the
  key: a key made of token bytes only gets a capital at its start and after every dash and
  small letters elsewhere; any other key is left as it is.
\<close>

definition validHeaderFieldByte :: "char \<Rightarrow> bool" where
  "validHeaderFieldByte ch \<longleftrightarrow>
     is_upper ch \<or> is_lower ch \<or> is_digit ch \<or>
     (of_char ch :: nat) \<in> {33, 35, 36, 37, 38, 39, 42, 43, 45, 46, 94, 95, 96, 124, 126}"

definition canonical_byte :: "bool \<Rightarrow> char \<Rightarrow> char" where
  "canonical_byte upper ch = (if upper then upper_char ch else lower_char ch)"

fun canonical :: "bool \<Rightarrow> string \<Rightarrow> string" where
  "canonical upper [] = []"
| "canonical upper (ch # s) =
     canonical_byte upper ch # canonical (canonical_byte upper ch = CHR ''-'') s"

definition CanonicalMIMEHeaderKey :: "string \<Rightarrow> string" where
  "CanonicalMIMEHeaderKey s = (if list_all validHeaderFieldByte s then canonical True s else s)"

text \<open>
  An \<open>http.Header\<close> is a Go map from keys to lists of values: an association list with
  distinct keys. A Go map is a reference: header maps live in a store, and a variable or
  field of type \<open>http.Header\<close> holds an address (\<open>None\<close> for the nil map).
\<close>

type_synonym Header = "(string \<times> string list) list"

record store =
  cells :: "nat \<Rightarrow> Header option"
  fresh :: nat

definition Header_Set :: "Header \<Rightarrow> string \<Rightarrow> string \<Rightarrow> Header" where
  "Header_Set h key v = AList.update (CanonicalMIMEHeaderKey key) [v] h"

definition Header_Get :: "Header \<Rightarrow> string \<Rightarrow> string" where
  "Header_Get h key =
     (case map_of h (CanonicalMIMEHeaderKey key) of
        None \<Rightarrow> []
      | Some [] \<Rightarrow> []
      | Some (v # vs) \<Rightarrow> v)"

text \<open>\<open>make(http.Header)\<close>: a new, empty map at an address not in use.\<close>

definition make_Header :: "store \<Rightarrow> nat \<times> store" where
  "make_Header s = (fresh s, s\<lparr>cells := (cells s)(fresh s \<mapsto> []), fresh := Suc (fresh s)\<rparr>)"

text \<open>\<open>h.Set(key, v)\<close> on the map at address \<open>a\<close>; \<open>h.Get(key)\<close> likewise.\<close>

definition set_header :: "nat \<Rightarrow> string \<Rightarrow> string \<Rightarrow> store \<Rightarrow> store" where
  "set_header a key v s =
     (case cells s a of
        None \<Rightarrow> s
      | Some h \<Rightarrow> s\<lparr>cells := (cells s)(a \<mapsto> Header_Set h key v)\<rparr>)"

definition get_header :: "store \<Rightarrow> nat \<Rightarrow> string \<Rightarrow> string" where
  "get_header s a key = (case cells s a of None \<Rightarrow> [] | Some h \<Rightarrow> Header_Get h key)"

text \<open>
  A store is well formed when every address in use is below the next fresh one.
\<close>

definition wf_store :: "store \<Rightarrow> bool" where
  "wf_store s \<longleftrightarrow> (\<forall>a. cells s a \<noteq> None \<longrightarrow> a < fresh s)"

section \<open>Messages\<close>

text \<open>
  The calls an \<open>http.ResponseWriter\<close> receives. The first \<open>WriteHeader\<close> fixes the status
  of the response; a body written before any status implies 200.
\<close>

datatype w_event = WriteHeader int | Write string

fun status_of :: "w_event list \<Rightarrow> int option" where
  "status_of [] = None"
| "status_of (WriteHeader code # es) = Some code"
| "status_of (Write b # es) = Some 200"

text \<open>
  \<open>http.Error\<close>: the status, then the message and a newline as the body. (The content
  type headers it sets first are not modelled.)
\<close>

definition http_Error :: "w_event list \<Rightarrow> string \<Rightarrow> int \<Rightarrow> w_event list" where
  "http_Error w msg code = w @ [WriteHeader code, Write (msg @ [CHR 0x0A])]"

definition StatusOK :: int where "StatusOK = 200"
definition StatusUnauthorized :: int where "StatusUnauthorized = 401"
definition StatusUnprocessableEntity :: int where "StatusUnprocessableEntity = 422"
definition StatusInternalServerError :: int where "StatusInternalServerError = 500"

text \<open>
  The struct \<open>Message\<close>. \<open>Headers\<close> is the address of a header map or nil. The field \<open>w\<close>
  refers to the response writer of the request being served (nil in a message built by a
  caller); the writer is shared with the handler, so the model keeps the writer's state,
  the calls it has received, in the field, and the handler reads it back from there.
\<close>

record Message =
  ID :: string
  Headers :: "nat option"
  Body :: string
  Retried :: int
  w :: "w_event list option"
  isAcknowledged :: bool

text \<open>
  \<open>Ack\<close> sets the flag and calls \<open>WriteHeader(http.StatusOK)\<close> on the writer. With a nil
  writer the call panics: the result \<open>None\<close>.
\<close>

definition Ack :: "Message \<Rightarrow> Message option" where
  "Ack m =
     (let m' = m\<lparr>isAcknowledged := True\<rparr>
      in case w m' of
           None \<Rightarrow> None
         | Some es \<Rightarrow> Some (m'\<lparr>w := Some (es @ [WriteHeader StatusOK])\<rparr>))"

section \<open>Library functions used by the receiver\<close>

subsection \<open>URL-safe base64\<close>

text \<open>
  \<open>base64.URLEncoding.EncodeToString\<close> (RFC 4648, section 5, padded with \<open>=\<close>): three
  bytes are read as a 24-bit number and written as four digits in base 64; a rest of one
  or two bytes is filled up with zero bits and written as two or three digits and padding.
\<close>

definition encodeURL :: string where
  "encodeURL = ''ABCDEFGHIJKLMNOPQRSTUVWXYZabcdefghijklmnopqrstuvwxyz0123456789-_''"

definition digit64 :: "nat \<Rightarrow> char" where
  "digit64 n = encodeURL ! (n mod 64)"

definition val24 :: "char \<Rightarrow> char \<Rightarrow> char \<Rightarrow> nat" where
  "val24 a b c = of_char a * 65536 + of_char b * 256 + of_char c"

fun EncodeToString :: "string \<Rightarrow> string" where
  "EncodeToString (a # b # c # src) =
     digit64 (val24 a b c div 262144) # digit64 (val24 a b c div 4096) #
     digit64 (val24 a b c div 64) # digit64 (val24 a b c) # EncodeToString src"
| "EncodeToString [a, b] =
     [digit64 (val24 a b (CHR 0x00) div 262144), digit64 (val24 a b (CHR 0x00) div 4096),
      digit64 (val24 a b (CHR 0x00) div 64), CHR ''='']"
| "EncodeToString [a] =
     [digit64 (val24 a (CHR 0x00) (CHR 0x00) div 262144),
      digit64 (val24 a (CHR 0x00) (CHR 0x00) div 4096), CHR ''='', CHR ''='']"
| "EncodeToString [] = []"

subsection \<open>JSON Web Tokens\<close>

text \<open>
  The package \<open>github.com/golang-jwt/jwt\<close> is not part of the repository; the receiver
  calls \<open>jwt.Parse\<close> and three methods of \<open>jwt.MapClaims\<close>. They are modelled after the
  library's version 3, on decoded tokens.

  A claim is a JSON value. A number is kept as the \<open>int64\<close> the library converts it to
  before comparing.
\<close>

datatype json = JNumber int | JString string | JOther

text \<open>
  A decoded token: the \<open>alg\<close> of its header, its claims, and \<open>sig_ok key\<close>, which tells
  whether the signature of the token verifies under \<open>key\<close> with the token's method.
  \<open>Valid\<close> is set by \<open>Parse\<close>.
\<close>

record Token =
  alg :: string
  Claims :: "string \<Rightarrow> json option"
  sig_ok :: "string \<Rightarrow> bool"
  Valid :: bool

text \<open>The type assertion \<open>token.Method.(*jwt.SigningMethodHMAC)\<close>.\<close>

definition SigningMethodHMAC :: "string \<Rightarrow> bool" where
  "SigningMethodHMAC a \<longleftrightarrow> a = ''HS256'' \<or> a = ''HS384'' \<or> a = ''HS512''"

definition verifyExp :: "int \<Rightarrow> int \<Rightarrow> bool \<Rightarrow> bool" where
  "verifyExp exp now required = (if exp = 0 then \<not> required else now \<le> exp)"

definition verifyIat :: "int \<Rightarrow> int \<Rightarrow> bool \<Rightarrow> bool" where
  "verifyIat iat now required = (if iat = 0 then \<not> required else now \<ge> iat)"

definition verifyNbf :: "int \<Rightarrow> int \<Rightarrow> bool \<Rightarrow> bool" where
  "verifyNbf nbf now required = (if nbf = 0 then \<not> required else now \<ge> nbf)"

definition verifyIss :: "string \<Rightarrow> string \<Rightarrow> bool \<Rightarrow> bool" where
  "verifyIss iss cmp required = (if iss = [] then \<not> required else iss = cmp)"

definition VerifyExpiresAt :: "(string \<Rightarrow> json option) \<Rightarrow> int \<Rightarrow> bool \<Rightarrow> bool" where
  "VerifyExpiresAt m cmp req =
     (case m ''exp'' of
        None \<Rightarrow> \<not> req
      | Some (JNumber n) \<Rightarrow> verifyExp n cmp req
      | Some _ \<Rightarrow> False)"

definition VerifyIssuedAt :: "(string \<Rightarrow> json option) \<Rightarrow> int \<Rightarrow> bool \<Rightarrow> bool" where
  "VerifyIssuedAt m cmp req =
     (case m ''iat'' of
        None \<Rightarrow> \<not> req
      | Some (JNumber n) \<Rightarrow> verifyIat n cmp req
      | Some _ \<Rightarrow> False)"

definition VerifyNotBefore :: "(string \<Rightarrow> json option) \<Rightarrow> int \<Rightarrow> bool \<Rightarrow> bool" where
  "VerifyNotBefore m cmp req =
     (case m ''nbf'' of
        None \<Rightarrow> \<not> req
      | Some (JNumber n) \<Rightarrow> verifyNbf n cmp req
      | Some _ \<Rightarrow> False)"

definition VerifyIssuer :: "(string \<Rightarrow> json option) \<Rightarrow> string \<Rightarrow> bool \<Rightarrow> bool" where
  "VerifyIssuer m cmp req =
     verifyIss (case m ''iss'' of Some (JString s) \<Rightarrow> s | _ \<Rightarrow> []) cmp req"

text \<open>
  \<open>MapClaims.Valid\<close>, which \<open>Parse\<close> runs: expiry, issued-at and not-before, none of
  them required; the message of the last failing check is the one reported.
\<close>

definition claims_error :: "(string \<Rightarrow> json option) \<Rightarrow> int \<Rightarrow> string option" where
  "claims_error m now =
     (if \<not> VerifyNotBefore m now False then Some ''Token is not valid yet''
      else if \<not> VerifyIssuedAt m now False then Some ''Token used before issued''
      else if \<not> VerifyExpiresAt m now False then Some ''Token is expired''
      else None)"

text \<open>
  What the receiver takes from outside: \<open>decode\<close> splits a token string and decodes its
  header and claims (or reports why it cannot), \<open>Sum256\<close> is \<open>sha256.Sum256\<close>, and \<open>Atoi\<close>
  is the value that \<open>strconv.Atoi\<close> returns (0 beside an error).
\<close>

record lib =
  decode :: "string \<Rightarrow> string + Token"
  Sum256 :: "string \<Rightarrow> string"
  Atoi :: "string \<Rightarrow> int"

text \<open>
  \<open>jwt.Parse\<close>: decode the token, ask the key function for the key, validate the claims
  at the time \<open>now\<close>, verify the signature. A signature error is reported before a claims
  error. The token is returned when nothing failed, marked valid.
\<close>

definition Parse ::
    "lib \<Rightarrow> int \<Rightarrow> string \<Rightarrow> (Token \<Rightarrow> string + string) \<Rightarrow> string + Token" where
  "Parse L now tokenString keyFunc =
     (case decode L tokenString of
        Inl e \<Rightarrow> Inl e
      | Inr token \<Rightarrow>
          (case keyFunc token of
             Inl e \<Rightarrow> Inl e
           | Inr key \<Rightarrow>
               if \<not> sig_ok token key then Inl ''signature is invalid''
               else (case claims_error (Claims token) now of
                       Some e \<Rightarrow> Inl e
                     | None \<Rightarrow> Inr (token\<lparr>Valid := True\<rparr>))))"

section \<open>The receiver\<close>

datatype error =
    CouldNotParse string
  | ClaimsNotProcessed
  | InvalidIssuer
  | TokenExpired
  | TokenNotValidYet
  | BodyHashMismatch

fun Error :: "error \<Rightarrow> string" where
  "Error (CouldNotParse e) = ''could not parse jwt: '' @ e"
| "Error ClaimsNotProcessed = ''could not jwt process token claims''"
| "Error InvalidIssuer = ''invalid issuer''"
| "Error TokenExpired = ''token has expired''"
| "Error TokenNotValidYet = ''token is not valid yet''"
| "Error BodyHashMismatch = ''body hash does not match''"

text \<open>
  One call of \<open>verify\<close> reads the clock three times: inside \<open>jwt.Parse\<close>, for the expiry
  check and for the not-before check. The three readings are Unix seconds.
\<close>

record clock =
  at_parse :: int
  at_exp :: int
  at_nbf :: int

definition keyFunc :: "string \<Rightarrow> Token \<Rightarrow> string + string" where
  "keyFunc signingKey token =
     (if \<not> SigningMethodHMAC (alg token) then Inl (''unexpected signing method: '' @ alg token)
      else Inr signingKey)"

definition verify :: "lib \<Rightarrow> clock \<Rightarrow> string \<Rightarrow> string \<Rightarrow> string \<Rightarrow> error + unit" where
  "verify L t body tokenString signingKey =
     (case Parse L (at_parse t) tokenString (keyFunc signingKey) of
        Inl e \<Rightarrow> Inl (CouldNotParse e)
      | Inr token \<Rightarrow>
          if \<not> Valid token then Inl ClaimsNotProcessed
          else if \<not> VerifyIssuer (Claims token) ''Upstash'' True then Inl InvalidIssuer
          else if \<not> VerifyExpiresAt (Claims token) (at_exp t) True then Inl TokenExpired
          else if \<not> VerifyNotBefore (Claims token) (at_nbf t) True then Inl TokenNotValidYet
          else if Claims token ''body'' \<noteq> Some (JString (EncodeToString (Sum256 L body)))
            then Inl BodyHashMismatch
          else Inr ())"

record Receiver =
  signingKey :: string
  nextSigningKey :: string

text \<open>
  The application callback is code outside the package. It is modelled by what it does
  to the message it is handed, in order: call \<open>Ack\<close>, or assign to an exported field.
\<close>

datatype action = CallAck | SetID string | SetBody string | SetRetried int | SetHeaders "nat option"

fun perform :: "action \<Rightarrow> Message \<Rightarrow> Message option" where
  "perform CallAck m = Ack m"
| "perform (SetID s) m = Some (m\<lparr>ID := s\<rparr>)"
| "perform (SetBody b) m = Some (m\<lparr>Body := b\<rparr>)"
| "perform (SetRetried n) m = Some (m\<lparr>Retried := n\<rparr>)"
| "perform (SetHeaders h) m = Some (m\<lparr>Headers := h\<rparr>)"

fun run :: "action list \<Rightarrow> Message \<Rightarrow> Message option" where
  "run [] m = Some m"
| "run (a # as) m = (case perform a m of None \<Rightarrow> None | Some m' \<Rightarrow> run as m')"

text \<open>
  An inbound request: the address of its header map and what \<open>io.ReadAll(r.Body)\<close>
  returns, an error or the bytes of the body.
\<close>

record Request =
  Header :: nat
  ReadAll :: "string + string"

text \<open>
  What serving one request leaves behind: the calls the response writer has received, and
  the message \<open>onReceive\<close> was invoked with, if it was invoked.
\<close>

record served =
  sink :: "w_event list"
  handed :: "Message option"

text \<open>
  The message the handler builds from a verified request (\<open>var m Message\<close> and the five
  assignments), and the writer state held by a message.
\<close>

definition new_message :: "lib \<Rightarrow> store \<Rightarrow> w_event list \<Rightarrow> Request \<Rightarrow> string \<Rightarrow> Message" where
  "new_message L s w0 r body =
     \<lparr>ID = get_header s (Header r) ''Upstash-Message-Id'',
      Headers = Some (Header r),
      Body = body,
      Retried = Atoi L (get_header s (Header r) ''Upstash-Retried''),
      w = Some w0,
      isAcknowledged = False\<rparr>"

definition the_sink :: "Message \<Rightarrow> w_event list" where
  "the_sink m = (case w m of None \<Rightarrow> [] | Some es \<Rightarrow> es)"

text \<open>
  The handler returned by \<open>Receive\<close>, applied to a writer that has received the calls
  \<open>w0\<close> and to the request \<open>r\<close>. \<open>onReceive\<close> is \<open>None\<close> for a nil callback. \<open>t1\<close> and \<open>t2\<close>
  are the clock readings of the first and of the second call of \<open>verify\<close>. The result is
  \<open>None\<close> when the handler panics.
\<close>

definition Receive ::
    "Receiver \<Rightarrow> lib \<Rightarrow> clock \<Rightarrow> clock \<Rightarrow> action list option \<Rightarrow> store \<Rightarrow>
     w_event list \<Rightarrow> Request \<Rightarrow> served option" where
  "Receive q L t1 t2 onReceive s w0 r =
     (case ReadAll r of
        Inl e \<Rightarrow> Some \<lparr>sink = http_Error w0 e StatusInternalServerError, handed = None\<rparr>
      | Inr body \<Rightarrow>
          (case verify L t1 body (get_header s (Header r) ''Upstash-Signature'') (signingKey q) of
             Inl e1 \<Rightarrow>
               (case verify L t2 body (get_header s (Header r) ''Upstash-Signature'')
                       (nextSigningKey q) of
                  Inl e2 \<Rightarrow>
                    Some \<lparr>sink = http_Error w0 (Error e2) StatusUnauthorized, handed = None\<rparr>
                | Inr _ \<Rightarrow>
                    Some \<lparr>sink = http_Error w0 (Error e1) StatusUnauthorized, handed = None\<rparr>)
           | Inr _ \<Rightarrow>
               (case (case onReceive of
                        None \<Rightarrow> Some (new_message L s w0 r body)
                      | Some f \<Rightarrow> run f (new_message L s w0 r body)) of
                  None \<Rightarrow> None
                | Some m \<Rightarrow>
                    Some \<lparr>sink =
                            (if \<not> isAcknowledged m
                             then http_Error (the_sink m)
                                    ''message was not acknowledged by the receiver''
                                    StatusUnprocessableEntity
                             else the_sink m),
                          handed = map_option (\<lambda>f. new_message L s w0 r body) onReceive\<rparr>)))"

subsection \<open>The checks of \<open>verify\<close>, one by one\<close>

text \<open>
  What a decoded token has to pass for \<open>verify\<close> to return nil, named after the claims
  they concern. Expiry and not-before are checked twice, by \<open>jwt.Parse\<close> (not required)
  and by \<open>verify\<close> itself (required), each at its own reading of the clock.
\<close>

definition signature_check :: "Token \<Rightarrow> string \<Rightarrow> bool" where
  "signature_check j key \<longleftrightarrow> SigningMethodHMAC (alg j) \<and> sig_ok j key"

definition issuer_check :: "Token \<Rightarrow> bool" where
  "issuer_check j \<longleftrightarrow> VerifyIssuer (Claims j) ''Upstash'' True"

definition expiry_check :: "Token \<Rightarrow> clock \<Rightarrow> bool" where
  "expiry_check j t \<longleftrightarrow>
     VerifyExpiresAt (Claims j) (at_parse t) False \<and> VerifyExpiresAt (Claims j) (at_exp t) True"

definition issued_at_check :: "Token \<Rightarrow> clock \<Rightarrow> bool" where
  "issued_at_check j t \<longleftrightarrow> VerifyIssuedAt (Claims j) (at_parse t) False"

definition not_before_check :: "Token \<Rightarrow> clock \<Rightarrow> bool" where
  "not_before_check j t \<longleftrightarrow>
     VerifyNotBefore (Claims j) (at_parse t) False \<and> VerifyNotBefore (Claims j) (at_nbf t) True"

definition body_hash_check :: "lib \<Rightarrow> Token \<Rightarrow> string \<Rightarrow> bool" where
  "body_hash_check L j body \<longleftrightarrow>
     Claims j ''body'' = Some (JString (EncodeToString (Sum256 L body)))"

subsection \<open>Sample values for the receiver\<close>

text \<open>
  A receiver with two keys, a clock, and tokens for the body \<open>hello\<close>: one signed with the
  current key, one signed with the next key, one signed with the current key that carries
  no \<open>nbf\<close> claim. The sample library decodes three token strings to them; its digest
  function is a stand-in (no property below depends on which function it is).
\<close>

definition sample_receiver :: Receiver where
  "sample_receiver = \<lparr>signingKey = ''current-key'', nextSigningKey = ''next-key''\<rparr>"

definition sample_clock :: clock where
  "sample_clock = \<lparr>at_parse = 1500, at_exp = 1500, at_nbf = 1500\<rparr>"

definition sample_digest :: "string \<Rightarrow> string" where
  "sample_digest b = rev b"

definition sample_token :: "string \<Rightarrow> Token" where
  "sample_token key =
     \<lparr>alg = ''HS256'',
      Claims = map_of
        [(''iss'', JString ''Upstash''), (''exp'', JNumber 2000), (''nbf'', JNumber 1000),
         (''body'', JString (EncodeToString (sample_digest ''hello'')))],
      sig_ok = (\<lambda>k. k = key),
      Valid = False\<rparr>"

definition sample_token_no_nbf :: Token where
  "sample_token_no_nbf =
     \<lparr>alg = ''HS256'',
      Claims = map_of
        [(''iss'', JString ''Upstash''), (''exp'', JNumber 2000),
         (''body'', JString (EncodeToString (sample_digest ''hello'')))],
      sig_ok = (\<lambda>k. k = ''current-key''),
      Valid = False\<rparr>"

definition sample_lib :: lib where
  "sample_lib =
     \<lparr>decode = (\<lambda>s. if s = ''signed-current'' then Inr (sample_token ''current-key'')
                    else if s = ''signed-next'' then Inr (sample_token ''next-key'')
                    else if s = ''signed-current-no-nbf'' then Inr sample_token_no_nbf
                    else Inl ''token contains an invalid number of segments''),
      Sum256 = sample_digest,
      Atoi = (\<lambda>s. 0)\<rparr>"

text \<open>A store holding the header map of one inbound request, and the request.\<close>

definition sample_inbound :: "string \<Rightarrow> store" where
  "sample_inbound tokenString =
     \<lparr>cells = (\<lambda>a. if a = 0
                     then Some [(''Upstash-Signature'', [tokenString]),
                                (''Upstash-Message-Id'', [''msg-1''])]
                     else None),
      fresh = 1\<rparr>"

definition sample_request :: Request where
  "sample_request = \<lparr>Header = 0, ReadAll = Inr ''hello''\<rparr>"

section \<open>Properties of the retrying transport\<close>

lemma int64_id: "- (2 ^ 63) \<le> k \<Longrightarrow> k < 2 ^ 63 \<Longrightarrow> int64 k = k"
  unfolding int64_def by (rule signed_take_bit_int_eq_self) simp_all

text \<open>
  As long as doubling cannot overflow, the loop computes a closed form: the value it was
  entered with, doubled once per remaining iteration, cut off at \<open>MaxBackOff\<close>.
\<close>

lemma backoff_loop_closed:
  assumes "0 < e" "e \<le> MaxBackOff c" "MaxBackOff c < 2 ^ 62" "i \<le> attempt"
  shows "backoff_loop c attempt i e = min (e * 2 ^ nat (attempt - i)) (MaxBackOff c)"
  using assms
proof (induction c attempt i e rule: backoff_loop.induct)
  case (1 c attempt i e)
  show ?case
  proof (cases "i < attempt")
    case False
    with "1.prems" have "attempt - i = 0" by simp
    with False "1.prems" show ?thesis
      by (subst backoff_loop.simps) simp
  next
    case True
    have w: "int64 (e * 2) = e * 2"
      using "1.prems" by (intro int64_id) auto
    define k where "k = nat (attempt - (i + 1))"
    have k: "nat (attempt - i) = Suc k" "nat (attempt - (i + 1)) = k"
      using True by (simp_all add: k_def)
    show ?thesis
    proof (cases "e * 2 > MaxBackOff c")
      case big: True
      have "e * 2 \<le> e * 2 ^ Suc k" using "1.prems"(1) by simp
      with big have "min (e * 2 ^ Suc k) (MaxBackOff c) = MaxBackOff c" by linarith
      with True big w k show ?thesis
        by (subst backoff_loop.simps) simp
    next
      case small: False
      have "backoff_loop c attempt (i + 1) (e * 2) = min (e * 2 * 2 ^ k) (MaxBackOff c)"
        using "1.IH"[OF True w[symmetric]] small "1.prems" True k w by simp
      with True small w k show ?thesis
        by (subst backoff_loop.simps) (simp add: mult.assoc)
    qed
  qed
qed

text \<open>
  Claim C2, as the code has it. The claim states that the delay before retry \<open>i\<close> is
  \<open>MinBackOff\<close> doubled once per earlier attempt, so that the first retry waits
  \<open>MinBackOff\<close>. \<open>Do\<close> passes the number of attempts already made, and the loop doubles
  once per attempt made, the failed one included: with the default policy (200ms, 1s) the
  first delay is 400ms, not 200ms.
\<close>

theorem first_backoff_is_doubled:
  "0 < MinBackOff \<lparr>MaxBackOff = Second, MinBackOff = 200 * Millisecond, Retries = 5\<rparr> \<and>
   MinBackOff \<lparr>MaxBackOff = Second, MinBackOff = 200 * Millisecond, Retries = 5\<rparr>
     \<le> MaxBackOff \<lparr>MaxBackOff = Second, MinBackOff = 200 * Millisecond, Retries = 5\<rparr> \<and>
   getExponentialBackOffDuration
     \<lparr>MaxBackOff = Second, MinBackOff = 200 * Millisecond, Retries = 5\<rparr> 1 = 400 * Millisecond \<and>
   getExponentialBackOffDuration
     \<lparr>MaxBackOff = Second, MinBackOff = 200 * Millisecond, Retries = 5\<rparr> 1
     \<noteq> MinBackOff \<lparr>MaxBackOff = Second, MinBackOff = 200 * Millisecond, Retries = 5\<rparr>"
  by (simp add: getExponentialBackOffDuration_def backoff_loop.simps int64_def
      Second_def Millisecond_def)

text \<open>
  Claim C2, amended: for every attempt number \<open>i \<ge> 1\<close> and every policy with
  \<open>0 < MinBackOff \<le> MaxBackOff\<close> (and \<open>MaxBackOff\<close> below \<open>2^62\<close> nanoseconds, so that
  doubling stays inside \<open>int64\<close>), the delay computed before retry \<open>i\<close> is \<open>MinBackOff\<close>
  doubled \<open>i\<close> times and cut off at \<open>MaxBackOff\<close>; the delay of the first retry is
  \<open>min (2 * MinBackOff) MaxBackOff\<close>; the schedule never decreases in \<open>i\<close> and never
  exceeds \<open>MaxBackOff\<close>. The closed form mentions the attempt number and the two bounds
  only: the function reads no other state.
\<close>

theorem backoff_schedule:
  assumes "0 < MinBackOff c" "MinBackOff c \<le> MaxBackOff c" "MaxBackOff c < 2 ^ 62" "1 \<le> i"
  shows "getExponentialBackOffDuration c i = min (MinBackOff c * 2 ^ nat i) (MaxBackOff c) \<and>
         getExponentialBackOffDuration c 1 = min (2 * MinBackOff c) (MaxBackOff c) \<and>
         getExponentialBackOffDuration c i \<le> getExponentialBackOffDuration c (i + 1) \<and>
         getExponentialBackOffDuration c i \<le> MaxBackOff c"
proof -
  have cf: "getExponentialBackOffDuration c j = min (MinBackOff c * 2 ^ nat j) (MaxBackOff c)"
    if "0 \<le> j" for j
    using backoff_loop_closed[OF assms(1-3), of 0 j] that
    by (simp add: getExponentialBackOffDuration_def)
  have "(2::int) ^ nat i \<le> 2 ^ nat (i + 1)"
    by (rule power_increasing) (use assms(4) in auto)
  then have "MinBackOff c * 2 ^ nat i \<le> MinBackOff c * 2 ^ nat (i + 1)"
    using assms(1) by (intro mult_left_mono) auto
  then have "min (MinBackOff c * 2 ^ nat i) (MaxBackOff c)
      \<le> min (MinBackOff c * 2 ^ nat (i + 1)) (MaxBackOff c)"
    by (rule min.mono) simp
  then show ?thesis
    using cf[of i] cf[of 1] cf[of "i + 1"] assms(4) by (simp add: mult.commute)
qed

theorem backoff_schedule_witness:
  "0 < MinBackOff \<lparr>MaxBackOff = Second, MinBackOff = 200 * Millisecond, Retries = 5\<rparr> \<and>
   MinBackOff \<lparr>MaxBackOff = Second, MinBackOff = 200 * Millisecond, Retries = 5\<rparr>
     \<le> MaxBackOff \<lparr>MaxBackOff = Second, MinBackOff = 200 * Millisecond, Retries = 5\<rparr> \<and>
   MaxBackOff \<lparr>MaxBackOff = Second, MinBackOff = 200 * Millisecond, Retries = 5\<rparr> < 2 ^ 62 \<and>
   (1::int) \<le> 3 \<and>
   getExponentialBackOffDuration
     \<lparr>MaxBackOff = Second, MinBackOff = 200 * Millisecond, Retries = 5\<rparr> 3 = Second \<and>
   getExponentialBackOffDuration
     \<lparr>MaxBackOff = Second, MinBackOff = 200 * Millisecond, Retries = 5\<rparr> 1 = 400 * Millisecond"
  using backoff_schedule
    [of "\<lparr>MaxBackOff = Second, MinBackOff = 200 * Millisecond, Retries = 5\<rparr>" 3]
  by (simp add: Second_def Millisecond_def)

text \<open>
  The loop of \<open>Do\<close> on a wrapped client that never succeeds: started at \<open>i\<close>, it returns
  after one invocation for each remaining value of the counter.
\<close>

lemma Do_loop_failing:
  assumes fail: "\<forall>k. must_retry (send k)"
    and lo: "0 \<le> Retries c + 1" and hi: "Retries c + 1 < 2 ^ 63 - 1"
    and i: "1 \<le> i" "i \<le> Retries c + 2" and n: "n = nat (Retries c + 2 - i)"
  shows "\<exists>st'. Do_loop c send i st = Some st' \<and> calls st' = calls st + n \<and>
           (i \<le> Retries c + 1 \<longrightarrow>
              (resp st', err st') = returned (send (calls st + n - 1)))"
  using i n
proof (induction n arbitrary: i st)
  case 0
  then have "i = Retries c + 2" by simp
  moreover have "int64 (Retries c + 1) = Retries c + 1"
    using lo hi by (intro int64_id) auto
  ultimately show ?case
    by (subst Do_loop.simps) simp
next
  case (Suc n)
  have b: "int64 (Retries c + 1) = Retries c + 1"
    using lo hi by (intro int64_id) auto
  from Suc.prems have le: "i \<le> Retries c + 1" by linarith
  have w: "int64 (i + 1) = i + 1"
    using Suc.prems hi by (intro int64_id) auto
  define st1 where "st1 = record_attempt (send (calls st)) st
      \<lparr>slept := slept (record_attempt (send (calls st)) st) @ [getExponentialBackOffDuration c i]\<rparr>"
  have step: "Do_loop c send i st = Do_loop c send (i + 1) st1"
    using le b w fail by (subst Do_loop.simps) (simp add: st1_def Let_def)
  have st1: "calls st1 = Suc (calls st)" "(resp st1, err st1) = returned (send (calls st))"
    by (simp_all add: st1_def record_attempt_def)
  have "1 \<le> i + 1" "i + 1 \<le> Retries c + 2" "n = nat (Retries c + 2 - (i + 1))"
    using Suc.prems le by linarith+
  from Suc.IH[OF this, of st1] obtain st' where st':
    "Do_loop c send (i + 1) st1 = Some st'" "calls st' = calls st1 + n"
    "i + 1 \<le> Retries c + 1 \<longrightarrow> (resp st', err st') = returned (send (calls st1 + n - 1))"
    by blast
  show ?case
  proof (cases "i = Retries c + 1")
    case True
    then have "Do_loop c send (i + 1) st1 = Some st1"
      using b by (subst Do_loop.simps) simp
    moreover from True Suc.prems have "n = 0" by simp
    ultimately show ?thesis using step st1 by simp
  next
    case False
    with le have "i + 1 \<le> Retries c + 1" by simp
    with st' step st1 show ?thesis by simp
  qed
qed

text \<open>
  Claim C5: when every invocation of the wrapped client fails (an error, or a status
  outside 200..299), \<open>Do\<close> returns, it has invoked the wrapped client exactly
  \<open>Retries + 1\<close> times, and the pair it returns is the pair of the last invocation, as it
  was. \<open>Retries\<close> is not negative (the constructor refuses a negative value) and
  \<open>Retries + 1\<close> is below the largest \<open>int\<close>, so that the loop counter does not wrap.
\<close>

theorem Do_exhausts_retries:
  assumes "\<forall>k. must_retry (send k)" "0 \<le> Retries c" "Retries c + 1 < 2 ^ 63 - 1"
  shows "\<exists>st. Do c send = Some st \<and> int (calls st) = Retries c + 1 \<and>
           (resp st, err st) = returned (send (nat (Retries c)))"
proof -
  from Do_loop_failing[OF assms(1) _ assms(3) _ _ refl, of 1 NoAttempt] assms(2)
  obtain st' where "Do_loop c send 1 NoAttempt = Some st'"
     "calls st' = calls NoAttempt + nat (Retries c + 2 - 1)"
     "(resp st', err st') = returned (send (calls NoAttempt + nat (Retries c + 2 - 1) - 1))"
    by auto
  moreover have "nat (Retries c + 2 - 1) - 1 = nat (Retries c)" using assms(2) by linarith
  ultimately show ?thesis using assms(2)
    by (simp add: Do_def NoAttempt_def)
qed

theorem Do_exhausts_retries_witness:
  "(\<forall>k. must_retry ((\<lambda>k. if even k then Failed ''connection refused'' None
                           else Responded \<lparr>StatusCode = 503, RespBody = ''busy''\<rparr>) k)) \<and>
   0 \<le> Retries \<lparr>MaxBackOff = Second, MinBackOff = 200 * Millisecond, Retries = 5\<rparr> \<and>
   Retries \<lparr>MaxBackOff = Second, MinBackOff = 200 * Millisecond, Retries = 5\<rparr> + 1 < 2 ^ 63 - 1 \<and>
   (\<exists>st. Do \<lparr>MaxBackOff = Second, MinBackOff = 200 * Millisecond, Retries = 5\<rparr>
            (\<lambda>k. if even k then Failed ''connection refused'' None
                  else Responded \<lparr>StatusCode = 503, RespBody = ''busy''\<rparr>) = Some st \<and>
         calls st = 6 \<and>
         (resp st, err st) = (Some \<lparr>StatusCode = 503, RespBody = ''busy''\<rparr>, None))"
  using Do_exhausts_retries
    [of "\<lambda>k. if even k then Failed ''connection refused'' None
              else Responded \<lparr>StatusCode = 503, RespBody = ''busy''\<rparr>"
        "\<lparr>MaxBackOff = Second, MinBackOff = 200 * Millisecond, Retries = 5\<rparr>"]
  by (simp add: isStatusOK_def)

section \<open>The base64 encoding is injective\<close>

lemma distinct_encodeURL: "distinct encodeURL"
  by (simp add: encodeURL_def)

lemma length_encodeURL: "length encodeURL = 64"
  by (simp add: encodeURL_def)

lemma digit64_eq_iff: "digit64 m = digit64 n \<longleftrightarrow> m mod 64 = n mod 64"
  unfolding digit64_def
  by (rule nth_eq_iff_index_eq) (simp_all add: distinct_encodeURL length_encodeURL)

lemma digit64_not_pad: "digit64 n \<noteq> CHR ''=''"
proof -
  have "digit64 n \<in> set encodeURL"
    unfolding digit64_def by (rule nth_mem) (simp add: length_encodeURL)
  moreover have "CHR ''='' \<notin> set encodeURL"
    by (simp add: encodeURL_def)
  ultimately show ?thesis by metis
qed

lemma split24:
  fixes a b c :: nat
  assumes "b < 256" "c < 256"
  shows "(a * 65536 + b * 256 + c) mod 256 = c"
    and "(a * 65536 + b * 256 + c) div 256 mod 256 = b"
    and "(a * 65536 + b * 256 + c) div 65536 = a"
proof -
  have v: "a * 65536 + b * 256 + c = c + 256 * (b + 256 * a)" by simp
  show "(a * 65536 + b * 256 + c) mod 256 = c"
    by (simp only: v mod_mult_self2 mod_less assms)
  have d: "(a * 65536 + b * 256 + c) div 256 = b + 256 * a"
  proof -
    have "(c + 256 * (b + 256 * a)) div 256 = (b + 256 * a) + c div 256"
      by (rule div_mult_self2) simp
    then show ?thesis using assms by (simp only: v div_less add_0_right)
  qed
  show "(a * 65536 + b * 256 + c) div 256 mod 256 = b"
    by (simp only: d mod_mult_self2 mod_less assms)
  have "(a * 65536 + b * 256 + c) div 65536 = (a * 65536 + b * 256 + c) div 256 div 256"
    by (simp only: div_mult2_eq[symmetric]) simp
  also have "\<dots> = a"
  proof -
    have "(b + 256 * a) div 256 = a + b div 256"
      by (rule div_mult_self2) simp
    then show ?thesis using assms by (simp only: d div_less add_0_right)
  qed
  finally show "(a * 65536 + b * 256 + c) div 65536 = a" .
qed

lemma val24_inj: "val24 a b c = val24 a' b' c' \<Longrightarrow> a = a' \<and> b = b' \<and> c = c'"
proof -
  assume eq: "val24 a b c = val24 a' b' c'"
  have lt: "of_char b < (256::nat)" "of_char c < (256::nat)"
    "of_char b' < (256::nat)" "of_char c' < (256::nat)" by simp_all
  have "(of_char c :: nat) = of_char c'"
    using split24(1)[OF lt(1,2), of "of_char a"] split24(1)[OF lt(3,4), of "of_char a'"] eq
    by (simp only: val24_def)
  moreover have "(of_char b :: nat) = of_char b'"
    using split24(2)[OF lt(1,2), of "of_char a"] split24(2)[OF lt(3,4), of "of_char a'"] eq
    by (simp only: val24_def)
  moreover have "(of_char a :: nat) = of_char a'"
    using split24(3)[OF lt(1,2), of "of_char a"] split24(3)[OF lt(3,4), of "of_char a'"] eq
    by (simp only: val24_def)
  ultimately show ?thesis by (simp only: of_char_eq_iff) 
qed

lemma val24_less: "val24 a b c < 16777216"
proof -
  have "of_char a < (256::nat)" "of_char b < (256::nat)" "of_char c < (256::nat)" by simp_all
  then show ?thesis unfolding val24_def by linarith
qed

lemma same_digit:
  fixes x y :: nat
  assumes "x div 64 = y div 64" "x mod 64 = y mod 64"
  shows "x = y"
proof -
  have "x = x div 64 * 64 + x mod 64" by (simp only: div_mult_mod_eq)
  also have "\<dots> = y div 64 * 64 + y mod 64" by (simp only: assms)
  also have "\<dots> = y" by (simp only: div_mult_mod_eq)
  finally show ?thesis .
qed

lemma div64_twice: "(u::nat) div 4096 div 64 = u div 262144" "(u::nat) div 64 div 64 = u div 4096"
  by (simp_all only: div_mult2_eq[symmetric]) simp_all

lemma top_digit: "(u::nat) < 16777216 \<Longrightarrow> u div 262144 < 64"
  by simp

lemma digits_determine:
  fixes u v :: nat
  assumes "u < 16777216" "v < 16777216"
    and d3: "(u div 262144) mod 64 = (v div 262144) mod 64"
    and d2: "(u div 4096) mod 64 = (v div 4096) mod 64"
    and d1: "(u div 64) mod 64 = (v div 64) mod 64"
    and d0: "u mod 64 = v mod 64"
  shows "u = v"
proof -
  have "u div 262144 = u div 262144 mod 64"
    by (rule mod_less[symmetric]) (rule top_digit[OF assms(1)])
  also have "\<dots> = v div 262144 mod 64" by (rule d3)
  also have "\<dots> = v div 262144"
    by (rule mod_less) (rule top_digit[OF assms(2)])
  finally have "u div 262144 = v div 262144" .
  then have "u div 4096 div 64 = v div 4096 div 64" by (simp only: div64_twice)
  then have "u div 4096 = v div 4096" using d2 by (rule same_digit)
  then have "u div 64 div 64 = v div 64 div 64" by (simp only: div64_twice)
  then have "u div 64 = v div 64" using d1 by (rule same_digit)
  then show ?thesis using d0 by (rule same_digit)
qed

lemma quad_inj:
  assumes "digit64 (val24 a b c div 262144) = digit64 (val24 a' b' c' div 262144)"
    and "digit64 (val24 a b c div 4096) = digit64 (val24 a' b' c' div 4096)"
    and "digit64 (val24 a b c div 64) = digit64 (val24 a' b' c' div 64)"
    and "val24 a b c mod 64 = val24 a' b' c' mod 64"
  shows "a = a' \<and> b = b' \<and> c = c'"
proof -
  have "val24 a b c = val24 a' b' c'"
  proof (rule digits_determine)
    show "val24 a b c < 16777216" "val24 a' b' c' < 16777216" by (rule val24_less)+
    show "val24 a b c div 262144 mod 64 = val24 a' b' c' div 262144 mod 64"
      using assms(1) by (simp only: digit64_eq_iff)
    show "val24 a b c div 4096 mod 64 = val24 a' b' c' div 4096 mod 64"
      using assms(2) by (simp only: digit64_eq_iff)
    show "val24 a b c div 64 mod 64 = val24 a' b' c' div 64 mod 64"
      using assms(3) by (simp only: digit64_eq_iff)
    show "val24 a b c mod 64 = val24 a' b' c' mod 64" by (rule assms(4))
  qed
  then show ?thesis by (rule val24_inj)
qed

lemma val24_low0: "val24 a b (CHR 0x00) mod 64 = 0"
proof -
  have "val24 a b (CHR 0x00) = 64 * (of_char a * 1024 + of_char b * 4)"
    by (simp add: val24_def)
  then show ?thesis by (simp only: mod_mult_self1_is_0)
qed

lemma digit64_not_pad': "CHR ''='' \<noteq> digit64 n"
  using digit64_not_pad[of n] by (rule not_sym)

lemma val24_mid0: "val24 x (CHR 0x00) (CHR 0x00) div 64 mod 64 = 0"
proof -
  have "val24 x (CHR 0x00) (CHR 0x00) = (of_char x * 1024) * 64"
    by (simp add: val24_def)
  then have "val24 x (CHR 0x00) (CHR 0x00) div 64 = 64 * (of_char x * 16)"
    by simp
  then show ?thesis by (simp only: mod_mult_self1_is_0)
qed

lemma enc_cons3:
  assumes "EncodeToString (a # b # c # src) = EncodeToString (a' # b' # c' # src')"
  shows "a = a' \<and> b = b' \<and> c = c' \<and> EncodeToString src = EncodeToString src'"
proof -
  from assms have e: "digit64 (val24 a b c div 262144) = digit64 (val24 a' b' c' div 262144)"
      "digit64 (val24 a b c div 4096) = digit64 (val24 a' b' c' div 4096)"
      "digit64 (val24 a b c div 64) = digit64 (val24 a' b' c' div 64)"
      "digit64 (val24 a b c) = digit64 (val24 a' b' c')"
      "EncodeToString src = EncodeToString src'"
    by simp_all
  from e(4) have "val24 a b c mod 64 = val24 a' b' c' mod 64"
    by (simp only: digit64_eq_iff)
  with e(1-3) have "a = a' \<and> b = b' \<and> c = c'" by (rule quad_inj)
  with e(5) show ?thesis by simp
qed

lemma enc_cons2:
  assumes "EncodeToString [a, b] = EncodeToString [a', b']"
  shows "a = a' \<and> b = b'"
proof -
  from assms have e:
      "digit64 (val24 a b (CHR 0x00) div 262144) = digit64 (val24 a' b' (CHR 0x00) div 262144)"
      "digit64 (val24 a b (CHR 0x00) div 4096) = digit64 (val24 a' b' (CHR 0x00) div 4096)"
      "digit64 (val24 a b (CHR 0x00) div 64) = digit64 (val24 a' b' (CHR 0x00) div 64)"
    by simp_all
  have "val24 a b (CHR 0x00) mod 64 = val24 a' b' (CHR 0x00) mod 64"
    by (simp only: val24_low0)
  with e have "a = a' \<and> b = b' \<and> CHR 0x00 = CHR 0x00" by (rule quad_inj)
  then show ?thesis by simp
qed

lemma enc_cons1:
  assumes "EncodeToString [a] = EncodeToString [a']"
  shows "a = a'"
proof -
  from assms have e:
      "digit64 (val24 a (CHR 0x00) (CHR 0x00) div 262144) = digit64 (val24 a' (CHR 0x00) (CHR 0x00) div 262144)"
      "digit64 (val24 a (CHR 0x00) (CHR 0x00) div 4096) = digit64 (val24 a' (CHR 0x00) (CHR 0x00) div 4096)"
    by simp_all
  have e3: "digit64 (val24 a (CHR 0x00) (CHR 0x00) div 64) = digit64 (val24 a' (CHR 0x00) (CHR 0x00) div 64)"
    by (simp only: digit64_eq_iff val24_mid0)
  have e4: "val24 a (CHR 0x00) (CHR 0x00) mod 64 = val24 a' (CHR 0x00) (CHR 0x00) mod 64"
    by (simp only: val24_low0)
  from e e3 e4 have "a = a' \<and> CHR 0x00 = CHR 0x00 \<and> CHR 0x00 = CHR 0x00" by (rule quad_inj)
  then show ?thesis by simp
qed

lemma enc_shapes:
  "EncodeToString (a # b # c # src) \<noteq> EncodeToString [a', b']"
  "EncodeToString (a # b # c # src) \<noteq> EncodeToString [a']"
  "EncodeToString (a # b # c # src) \<noteq> EncodeToString []"
  "EncodeToString [a, b] \<noteq> EncodeToString [a']"
  "EncodeToString [a, b] \<noteq> EncodeToString []"
  "EncodeToString [a] \<noteq> EncodeToString []"
  by (simp_all add: digit64_not_pad digit64_not_pad')

lemma EncodeToString_inj: "EncodeToString xs = EncodeToString ys \<Longrightarrow> xs = ys"
proof (induction xs arbitrary: ys rule: EncodeToString.induct)
  case (1 a b c src)
  show ?case
  proof (cases ys rule: EncodeToString.cases)
    case (1 a' b' c' src')
    from enc_cons3[OF "1.prems"[unfolded 1]] "1.IH" 1 show ?thesis by blast
  qed (use "1.prems" enc_shapes in metis)+
next
  case (2 a b)
  show ?case
  proof (cases ys rule: EncodeToString.cases)
    case (2 a' b')
    from enc_cons2[OF "2.prems"[unfolded 2]] 2 show ?thesis by blast
  qed (use "2.prems" enc_shapes in metis)+
next
  case (3 a)
  show ?case
  proof (cases ys rule: EncodeToString.cases)
    case (3 a')
    from enc_cons1[OF "3.prems"[unfolded 3]] 3 show ?thesis by blast
  qed (use "3.prems" enc_shapes in metis)+
next
  case 4
  show ?case
    by (cases ys rule: EncodeToString.cases) (use 4 enc_shapes in metis)+
qed

end
